theory Spec2Isabelle
  imports Complex_Main
begin

section \<open>Python arithmetic\<close>

text \<open>
  The program computes on Python floats. They are modelled as exact real numbers:
  rounding, overflow and NaN are not part of the model, and a statement below is a
  statement about the formulas in exact arithmetic. What is part of the model is every exception that the arithmetic of the
  program can raise on real arguments: \<^verbatim>\<open>x / 0\<close> raises \<^verbatim>\<open>ZeroDivisionError\<close>, and
  \<^verbatim>\<open>math.sqrt\<close> of a negative number and \<^verbatim>\<open>math.acos\<close> outside \<open>[-1, 1]\<close> raise
  \<^verbatim>\<open>ValueError\<close>. A function that can raise returns \<open>py_error + 'a\<close>, with \<open>Inl\<close> the
  exception.
\<close>

datatype py_error = ZeroDivisionError | ValueError

definition py_bind :: "py_error + 'a \<Rightarrow> ('a \<Rightarrow> py_error + 'b) \<Rightarrow> py_error + 'b" where
  "py_bind m f = (case m of Inl e \<Rightarrow> Inl e | Inr v \<Rightarrow> f v)"

definition py_truediv :: "real \<Rightarrow> real \<Rightarrow> py_error + real" where
  "py_truediv a b = (if b = 0 then Inl ZeroDivisionError else Inr (a / b))"

text \<open>\<^verbatim>\<open>x % m\<close> with a positive modulus: the remainder has the sign of \<open>m\<close>. On integers,
  and on reals, it lies in \<open>[0, m)\<close>; on floats a remainder just below \<open>m\<close> can round to \<open>m\<close>
  itself, so the range stated of a result below is \<open>[0, m]\<close>.\<close>

definition py_mod :: "real \<Rightarrow> real \<Rightarrow> real" where
  "py_mod x m = x - m * of_int \<lfloor>x / m\<rfloor>"

definition math_sqrt :: "real \<Rightarrow> py_error + real" where
  "math_sqrt x = (if x < 0 then Inl ValueError else Inr (sqrt x))"

definition math_acos :: "real \<Rightarrow> py_error + real" where
  "math_acos x = (if x < - 1 \<or> 1 < x then Inl ValueError else Inr (arccos x))"

definition math_radians :: "real \<Rightarrow> real" where
  "math_radians x = x * (pi / 180)"

definition math_degrees :: "real \<Rightarrow> real" where
  "math_degrees x = x * (180 / pi)"

text \<open>
  \<^verbatim>\<open>float('inf')\<close> is the one non-real float the program writes down: it starts the
  running minimum of both searches. A running minimum is a real number or infinity.
\<close>

datatype pyfloat = Finite real | PosInf

fun float_less :: "pyfloat \<Rightarrow> pyfloat \<Rightarrow> bool" where
  "float_less (Finite a) (Finite b) = (a < b)"
| "float_less (Finite a) PosInf = True"
| "float_less PosInf _ = False"

text \<open>\<^verbatim>\<open>range(start, stop, step)\<close> for a positive step (a step that is not positive gives
  no element here; the program only writes \<^verbatim>\<open>range(400, 900, 5)\<close>).\<close>

function py_range :: "int \<Rightarrow> int \<Rightarrow> int \<Rightarrow> int list" where
  "py_range start stop step =
     (if 0 < step \<and> start < stop then start # py_range (start + step) stop step else [])"
  by pat_completeness auto
termination
  by (relation "measure (\<lambda>(start, stop, step). nat (stop - start))") auto

declare py_range.simps [simp del]

section \<open>Constants\<close>

definition MU_EARTH :: real where
  "MU_EARTH = 398600.4418"

definition R_EARTH :: real where
  "R_EARTH = 6371.0"

definition J2 :: real where
  "J2 = 1.08263 / 10 ^ 3"

section \<open>Orbital mechanics kernel\<close>

definition orbital_velocity :: "real \<Rightarrow> py_error + real" where
  "orbital_velocity radius = py_bind (py_truediv MU_EARTH radius) math_sqrt"

text \<open>\<^verbatim>\<open>hohmann_delta_v\<close>, in the order in which the source evaluates
  (\<^verbatim>\<open>a_transfer\<close> is computed and never used; its division by 2 cannot raise).\<close>

definition hohmann_delta_v :: "real \<Rightarrow> real \<Rightarrow> py_error + real" where
  "hohmann_delta_v r1 r2 =
     py_bind (orbital_velocity r1) (\<lambda>v1.
     py_bind (orbital_velocity r2) (\<lambda>v2.
     py_bind (py_truediv (2 * MU_EARTH * r2) (r1 * (r1 + r2))) (\<lambda>q1.
     py_bind (math_sqrt q1) (\<lambda>v_transfer1.
     py_bind (py_truediv (2 * MU_EARTH * r1) (r2 * (r1 + r2))) (\<lambda>q2.
     py_bind (math_sqrt q2) (\<lambda>v_transfer2.
       let delta_v1 = \<bar>v_transfer1 - v1\<bar>;
           delta_v2 = \<bar>v2 - v_transfer2\<bar>
       in Inr (delta_v1 + delta_v2)))))))"

definition bielliptic_delta_v :: "real \<Rightarrow> real \<Rightarrow> real \<Rightarrow> py_error + real" where
  "bielliptic_delta_v r1 r2 r_b =
     py_bind (orbital_velocity r1) (\<lambda>v1.
     py_bind (py_truediv (2 * MU_EARTH * r_b) (r1 * (r1 + r_b))) (\<lambda>q1.
     py_bind (math_sqrt q1) (\<lambda>v_transfer1.
     let delta_v1 = \<bar>v_transfer1 - v1\<bar> in
     py_bind (py_truediv (2 * MU_EARTH * r1) (r_b * (r1 + r_b))) (\<lambda>qb1.
     py_bind (math_sqrt qb1) (\<lambda>v_b1.
     py_bind (py_truediv (2 * MU_EARTH * r2) (r_b * (r2 + r_b))) (\<lambda>qb2.
     py_bind (math_sqrt qb2) (\<lambda>v_b2.
     let delta_v2 = \<bar>v_b2 - v_b1\<bar> in
     py_bind (orbital_velocity r2) (\<lambda>v2.
     py_bind (py_truediv (2 * MU_EARTH * r_b) (r2 * (r2 + r_b))) (\<lambda>q2.
     py_bind (math_sqrt q2) (\<lambda>v_transfer2.
     let delta_v3 = \<bar>v2 - v_transfer2\<bar>
     in Inr (delta_v1 + delta_v2 + delta_v3)))))))))))"

section \<open>Transfer strategy selection\<close>

text \<open>The dictionary that \<^verbatim>\<open>choose_transfer\<close> returns; \<open>method_name\<close> is its key \<^verbatim>\<open>"method"\<close>.\<close>

record transfer_plan =
  method_name :: string
  delta_v_kms :: real

text \<open>The loop of \<^verbatim>\<open>choose_transfer\<close> over the multipliers, threading
  \<^verbatim>\<open>best_bielliptic_dv\<close>.\<close>

fun bielliptic_loop :: "real \<Rightarrow> real \<Rightarrow> real list \<Rightarrow> pyfloat \<Rightarrow> py_error + pyfloat" where
  "bielliptic_loop r1 r2 [] best_bielliptic_dv = Inr best_bielliptic_dv"
| "bielliptic_loop r1 r2 (multiplier # rest) best_bielliptic_dv =
     (let r_b = multiplier * max r1 r2 in
      py_bind (bielliptic_delta_v r1 r2 r_b) (\<lambda>dv_bielliptic.
        bielliptic_loop r1 r2 rest
          (if float_less (Finite dv_bielliptic) best_bielliptic_dv
           then Finite dv_bielliptic else best_bielliptic_dv)))"

definition choose_transfer :: "real \<Rightarrow> real \<Rightarrow> py_error + transfer_plan" where
  "choose_transfer initial_altitude_km final_altitude_km =
     (let r1 = R_EARTH + initial_altitude_km;
          r2 = R_EARTH + final_altitude_km
      in py_bind (hohmann_delta_v r1 r2) (\<lambda>dv_hohmann.
         py_bind (bielliptic_loop r1 r2 [2, 5, 10] PosInf) (\<lambda>best_bielliptic_dv.
           case best_bielliptic_dv of
             Finite b \<Rightarrow>
               if b < dv_hohmann
               then Inr \<lparr>method_name = ''bi-elliptic'', delta_v_kms = b\<rparr>
               else Inr \<lparr>method_name = ''hohmann'', delta_v_kms = dv_hohmann\<rparr>
           | PosInf \<Rightarrow> Inr \<lparr>method_name = ''hohmann'', delta_v_kms = dv_hohmann\<rparr>)))"

section \<open>Inclination change\<close>

definition inclination_change_delta_v :: "real \<Rightarrow> real \<Rightarrow> py_error + real" where
  "inclination_change_delta_v altitude_km delta_inclination_deg =
     (let r = R_EARTH + altitude_km in
      py_bind (orbital_velocity r) (\<lambda>v.
        let delta_i_rad = math_radians delta_inclination_deg
        in Inr (2 * v * sin (delta_i_rad / 2))))"

section \<open>LTAN drift solver\<close>

record ltan_solution =
  new_altitude_km :: int
  new_inclination_deg :: real
  total_delta_v_kms :: real
  required_drift_deg_per_day :: real
  duration_days :: real

text \<open>The LTAN difference in degrees, after the normalisation of the source
  (\<^verbatim>\<open>((delta_ltan_deg + 180) % 360) - 180\<close>).\<close>

definition delta_ltan_deg :: "real \<Rightarrow> real \<Rightarrow> real" where
  "delta_ltan_deg initial_ltan_hours target_ltan_hours =
     (let d = (target_ltan_hours - initial_ltan_hours) * 15
      in py_mod (d + 180) 360 - 180)"

definition required_drift_rate :: "real \<Rightarrow> real \<Rightarrow> real \<Rightarrow> py_error + real" where
  "required_drift_rate initial_ltan_hours target_ltan_hours days =
     py_truediv (delta_ltan_deg initial_ltan_hours target_ltan_hours) days"

text \<open>The first half of the loop body: the cosine of the inclination that gives the
  required drift at altitude \<open>h\<close>.\<close>

definition candidate_cos_i :: "real \<Rightarrow> int \<Rightarrow> py_error + real" where
  "candidate_cos_i drift_rate h =
     (let a = R_EARTH + of_int h in
      py_bind (py_truediv MU_EARTH (a ^ 3)) (\<lambda>q.
      py_bind (math_sqrt q) (\<lambda>n.
      py_bind (py_truediv (- 1.5 * J2 * R_EARTH ^ 2 * n) (a ^ 2)) (\<lambda>drift_factor.
      let drift_rate_rad_per_sec = math_radians drift_rate / 86400
      in py_truediv drift_rate_rad_per_sec drift_factor))))"

text \<open>The loop body: the state is \<^verbatim>\<open>(best_solution, min_dv)\<close>.\<close>

definition ltan_step ::
  "real \<Rightarrow> real \<Rightarrow> real \<Rightarrow> int \<Rightarrow> ltan_solution option \<times> pyfloat
     \<Rightarrow> py_error + (ltan_solution option \<times> pyfloat)" where
  "ltan_step initial_altitude_km drift_rate days h st =
     (case st of (best_solution, min_dv) \<Rightarrow>
      py_bind (candidate_cos_i drift_rate h) (\<lambda>cos_i.
        if \<bar>cos_i\<bar> \<le> 1 then
          py_bind (math_acos cos_i) (\<lambda>i_rad.
          let i_deg = math_degrees i_rad;
              current_r = R_EARTH + initial_altitude_km;
              new_r = R_EARTH + of_int h;
              delta_i_rad = \<bar>i_rad - math_radians 98.6\<bar>
          in
          py_bind (hohmann_delta_v current_r new_r) (\<lambda>dv_alt.
          py_bind (inclination_change_delta_v (of_int h) (math_degrees delta_i_rad)) (\<lambda>dv_inc.
          let total_dv = dv_alt + dv_inc in
          if float_less (Finite total_dv) min_dv then
            Inr (Some \<lparr>new_altitude_km = h,
                        new_inclination_deg = i_deg,
                        total_delta_v_kms = total_dv,
                        required_drift_deg_per_day = drift_rate,
                        duration_days = days\<rparr>,
                 Finite total_dv)
          else Inr (best_solution, min_dv))))
        else Inr (best_solution, min_dv)))"

fun ltan_loop ::
  "real \<Rightarrow> real \<Rightarrow> real \<Rightarrow> int list \<Rightarrow> ltan_solution option \<times> pyfloat
     \<Rightarrow> py_error + (ltan_solution option \<times> pyfloat)" where
  "ltan_loop initial_altitude_km drift_rate days [] st = Inr st"
| "ltan_loop initial_altitude_km drift_rate days (h # hs) st =
     py_bind (ltan_step initial_altitude_km drift_rate days h st)
       (ltan_loop initial_altitude_km drift_rate days hs)"

definition ltan_drift_adjustment ::
  "real \<Rightarrow> real \<Rightarrow> real \<Rightarrow> real \<Rightarrow> py_error + ltan_solution option" where
  "ltan_drift_adjustment initial_ltan_hours target_ltan_hours initial_altitude_km days =
     py_bind (required_drift_rate initial_ltan_hours target_ltan_hours days) (\<lambda>drift_rate.
     py_bind (ltan_loop initial_altitude_km drift_rate days (py_range 400 900 5) (None, PosInf))
       (\<lambda>st. Inr (fst st)))"

section \<open>What the specification says about the LTAN search\<close>

text \<open>A candidate altitude is feasible when its \<open>cos_i\<close> is computed and has absolute value
  at most 1.\<close>

definition feasible :: "real \<Rightarrow> int \<Rightarrow> bool" where
  "feasible drift_rate h =
     (case candidate_cos_i drift_rate h of Inl e \<Rightarrow> False | Inr cos_i \<Rightarrow> \<bar>cos_i\<bar> \<le> 1)"

text \<open>The cost that the specification assigns to a feasible candidate, in its words: the
  Hohmann cost from the current radius to the candidate radius, plus the plane-change cost
  at \<open>h\<close> of \<open>|i - 98.6|\<close> degrees, where \<open>i\<close> is the arccosine of \<open>cos_i\<close> in degrees.\<close>

definition spec_candidate_cost :: "real \<Rightarrow> real \<Rightarrow> int \<Rightarrow> py_error + real" where
  "spec_candidate_cost initial_altitude_km drift_rate h =
     py_bind (candidate_cos_i drift_rate h) (\<lambda>cos_i.
     py_bind (hohmann_delta_v (R_EARTH + initial_altitude_km) (R_EARTH + of_int h)) (\<lambda>dv_alt.
     py_bind (inclination_change_delta_v (of_int h) \<bar>math_degrees (arccos cos_i) - 98.6\<bar>) (\<lambda>dv_inc.
       Inr (dv_alt + dv_inc))))"

text \<open>The invariant of the search loop after the altitudes \<open>seen\<close>: with no solution yet the
  running minimum is infinite and no altitude seen is feasible; otherwise the solution is a
  feasible altitude seen, it carries the inclination, the cost and the drift data of that
  altitude, the running minimum is its cost, and no feasible altitude seen costs less.\<close>

definition ltan_invariant ::
  "real \<Rightarrow> real \<Rightarrow> real \<Rightarrow> int list \<Rightarrow> ltan_solution option \<times> pyfloat \<Rightarrow> bool" where
  "ltan_invariant initial_altitude_km drift_rate days seen st =
     (case fst st of
        None \<Rightarrow> snd st = PosInf \<and> (\<forall>h \<in> set seen. \<not> feasible drift_rate h)
      | Some s \<Rightarrow>
          snd st = Finite (total_delta_v_kms s)
        \<and> new_altitude_km s \<in> set seen
        \<and> (\<exists>cos_i. candidate_cos_i drift_rate (new_altitude_km s) = Inr cos_i \<and> \<bar>cos_i\<bar> \<le> 1
              \<and> new_inclination_deg s = math_degrees (arccos cos_i))
        \<and> spec_candidate_cost initial_altitude_km drift_rate (new_altitude_km s)
            = Inr (total_delta_v_kms s)
        \<and> required_drift_deg_per_day s = drift_rate
        \<and> duration_days s = days
        \<and> (\<forall>h \<in> set seen. feasible drift_rate h \<longrightarrow>
              (\<exists>t. spec_candidate_cost initial_altitude_km drift_rate h = Inr t
                  \<and> total_delta_v_kms s \<le> t)))"

section \<open>Facts about the Python arithmetic\<close>

lemma py_bind_Inr [simp]: "py_bind (Inr v) f = f v"
  by (simp add: py_bind_def)

lemma py_bind_Inl [simp]: "py_bind (Inl e) f = Inl e"
  by (simp add: py_bind_def)

lemma py_bind_eq_Inr: "py_bind m f = Inr y \<longleftrightarrow> (\<exists>v. m = Inr v \<and> f v = Inr y)"
  by (cases m) simp_all

section \<open>The transfer formulas on positive radii\<close>

lemma MU_EARTH_pos: "0 < MU_EARTH"
  by (simp add: MU_EARTH_def)

lemma orbital_velocity_pos: "0 < r \<Longrightarrow> orbital_velocity r = Inr (sqrt (MU_EARTH / r))"
proof -
  assume r: "0 < r"
  then have "\<not> MU_EARTH / r < 0"
    using MU_EARTH_pos by (simp add: not_less)
  with r show ?thesis
    by (simp add: orbital_velocity_def py_truediv_def math_sqrt_def)
qed

lemma transfer_speed:
  assumes "0 < x" "0 < y" "0 < s"
  shows "py_bind (py_truediv (2 * MU_EARTH * x) (y * s)) (\<lambda>q. py_bind (math_sqrt q) f)
           = f (sqrt (2 * MU_EARTH * x / (y * s)))"
proof -
  have "y * s \<noteq> 0"
    using assms by simp
  moreover have "\<not> 2 * MU_EARTH * x / (y * s) < 0"
    using assms MU_EARTH_pos by (simp add: not_less)
  ultimately show ?thesis
    by (simp add: py_truediv_def math_sqrt_def)
qed

lemma hohmann_value:
  assumes "0 < r1" "0 < r2"
  shows "hohmann_delta_v r1 r2 =
     Inr (\<bar>sqrt (2 * MU_EARTH * r2 / (r1 * (r1 + r2))) - sqrt (MU_EARTH / r1)\<bar>
        + \<bar>sqrt (MU_EARTH / r2) - sqrt (2 * MU_EARTH * r1 / (r2 * (r1 + r2)))\<bar>)"
proof -
  have "0 < r1 + r2"
    using assms by linarith
  then show ?thesis
    unfolding hohmann_delta_v_def
    by (simp only: orbital_velocity_pos transfer_speed assms py_bind_Inr Let_def)
qed

lemma bielliptic_value:
  assumes "0 < r1" "0 < r2" "0 < r_b"
  shows "bielliptic_delta_v r1 r2 r_b =
     Inr (\<bar>sqrt (2 * MU_EARTH * r_b / (r1 * (r1 + r_b))) - sqrt (MU_EARTH / r1)\<bar>
        + \<bar>sqrt (2 * MU_EARTH * r2 / (r_b * (r2 + r_b))) - sqrt (2 * MU_EARTH * r1 / (r_b * (r1 + r_b)))\<bar>
        + \<bar>sqrt (MU_EARTH / r2) - sqrt (2 * MU_EARTH * r_b / (r2 * (r2 + r_b)))\<bar>)"
proof -
  have "0 < r1 + r_b" "0 < r2 + r_b"
    using assms by linarith+
  then show ?thesis
    unfolding bielliptic_delta_v_def
    by (simp only: orbital_velocity_pos transfer_speed assms py_bind_Inr Let_def)
qed

lemma hohmann_nonneg: "hohmann_delta_v r1 r2 = Inr d \<Longrightarrow> 0 \<le> d"
  by (auto simp: hohmann_delta_v_def py_bind_eq_Inr Let_def)

lemma bielliptic_nonneg: "bielliptic_delta_v r1 r2 r_b = Inr d \<Longrightarrow> 0 \<le> d"
  by (auto simp: bielliptic_delta_v_def py_bind_eq_Inr Let_def)

text \<open>
  Claim C5. For all radii \<open>r1 > 0\<close> and \<open>r2 > 0\<close>, the Hohmann delta-v of \<open>(r1, r2)\<close>
  equals that of \<open>(r2, r1)\<close>; both calls return a value.
\<close>

theorem hohmann_delta_v_symmetric:
  "0 < r1 \<Longrightarrow> 0 < r2 \<Longrightarrow>
     hohmann_delta_v r1 r2 = hohmann_delta_v r2 r1 \<and> (\<exists>d. hohmann_delta_v r1 r2 = Inr d)"
  by (simp add: hohmann_value add.commute abs_minus_commute)

text \<open>The symmetry at the radii of the 500 km and 600 km orbits.\<close>

theorem hohmann_delta_v_symmetric_witness:
  "hohmann_delta_v 6871 6971 = hohmann_delta_v 6971 6871 \<and> (\<exists>d. hohmann_delta_v 6871 6971 = Inr d)"
proof -
  have "(0::real) < 6871" and "(0::real) < 6971"
    by simp_all
  then show ?thesis
    by (rule hohmann_delta_v_symmetric)
qed

lemma hohmann_same: "0 < r \<Longrightarrow> hohmann_delta_v r r = Inr 0"
  by (simp add: hohmann_value)

lemma bielliptic_same_pos:
  assumes "0 < r" "1 < m"
  shows "\<exists>b. bielliptic_delta_v r r (m * r) = Inr b \<and> 0 < b"
proof -
  have mr: "0 < m * r"
    using assms by simp
  have "1 < 2 * m / (1 + m)"
    using assms by (simp add: field_simps)
  then have "MU_EARTH / r * 1 < MU_EARTH / r * (2 * m / (1 + m))"
    using assms MU_EARTH_pos by (intro mult_strict_left_mono) simp_all
  moreover have "MU_EARTH / r * (2 * m / (1 + m)) = 2 * MU_EARTH * (m * r) / (r * (r + m * r))"
  proof -
    have nz: "r \<noteq> 0" "1 + m \<noteq> 0"
      using assms by linarith+
    have "r + m * r = (1 + m) * r"
      by (simp add: algebra_simps)
    then have "2 * MU_EARTH * (m * r) / (r * (r + m * r)) = 2 * MU_EARTH * (m * r) / (r * ((1 + m) * r))"
      by (simp only:)
    also have "\<dots> = MU_EARTH / r * (2 * m / (1 + m))"
      using nz by (simp add: divide_simps)
    finally show ?thesis
      by simp
  qed
  ultimately have "MU_EARTH / r < 2 * MU_EARTH * (m * r) / (r * (r + m * r))"
    by simp
  then have "sqrt (MU_EARTH / r) < sqrt (2 * MU_EARTH * (m * r) / (r * (r + m * r)))"
    by simp
  then show ?thesis
    by (simp add: bielliptic_value assms mr)
qed

section \<open>The transfer selector\<close>

lemma R_EARTH_pos: "0 < R_EARTH"
  by (simp add: R_EARTH_def)

lemma bielliptic_loop_three:
  assumes "bielliptic_delta_v r1 r2 (2 * max r1 r2) = Inr b2"
    and "bielliptic_delta_v r1 r2 (5 * max r1 r2) = Inr b5"
    and "bielliptic_delta_v r1 r2 (10 * max r1 r2) = Inr b10"
  shows "bielliptic_loop r1 r2 [2, 5, 10] PosInf = Inr (Finite (min b2 (min b5 b10)))"
  using assms by (simp add: Let_def min_def)

lemma bielliptic_loop_three_Inr:
  assumes "bielliptic_loop r1 r2 [2, 5, 10] PosInf = Inr best"
  shows "\<exists>b2 b5 b10. bielliptic_delta_v r1 r2 (2 * max r1 r2) = Inr b2
           \<and> bielliptic_delta_v r1 r2 (5 * max r1 r2) = Inr b5
           \<and> bielliptic_delta_v r1 r2 (10 * max r1 r2) = Inr b10
           \<and> best = Finite (min b2 (min b5 b10))"
proof -
  from assms obtain b2 b5 b10 where
    b: "bielliptic_delta_v r1 r2 (2 * max r1 r2) = Inr b2"
       "bielliptic_delta_v r1 r2 (5 * max r1 r2) = Inr b5"
       "bielliptic_delta_v r1 r2 (10 * max r1 r2) = Inr b10"
    by (auto simp: Let_def py_bind_eq_Inr)
  with assms bielliptic_loop_three [OF b] show ?thesis
    by simp
qed

lemma choose_transfer_Inr:
  assumes "choose_transfer a1 a2 = Inr plan"
  shows "\<exists>dv_h b2 b5 b10.
      hohmann_delta_v (R_EARTH + a1) (R_EARTH + a2) = Inr dv_h
    \<and> bielliptic_delta_v (R_EARTH + a1) (R_EARTH + a2) (2 * max (R_EARTH + a1) (R_EARTH + a2)) = Inr b2
    \<and> bielliptic_delta_v (R_EARTH + a1) (R_EARTH + a2) (5 * max (R_EARTH + a1) (R_EARTH + a2)) = Inr b5
    \<and> bielliptic_delta_v (R_EARTH + a1) (R_EARTH + a2) (10 * max (R_EARTH + a1) (R_EARTH + a2)) = Inr b10
    \<and> plan = (if min b2 (min b5 b10) < dv_h
              then \<lparr>method_name = ''bi-elliptic'', delta_v_kms = min b2 (min b5 b10)\<rparr>
              else \<lparr>method_name = ''hohmann'', delta_v_kms = dv_h\<rparr>)"
proof -
  from assms obtain dv_h best where
    h: "hohmann_delta_v (R_EARTH + a1) (R_EARTH + a2) = Inr dv_h"
    and l: "bielliptic_loop (R_EARTH + a1) (R_EARTH + a2) [2, 5, 10] PosInf = Inr best"
    and p: "(case best of
               Finite b \<Rightarrow> if b < dv_h then Inr \<lparr>method_name = ''bi-elliptic'', delta_v_kms = b\<rparr>
                           else Inr \<lparr>method_name = ''hohmann'', delta_v_kms = dv_h\<rparr>
             | PosInf \<Rightarrow> Inr \<lparr>method_name = ''hohmann'', delta_v_kms = dv_h\<rparr>)
          = (Inr plan :: py_error + transfer_plan)"
    unfolding choose_transfer_def Let_def py_bind_eq_Inr by blast
  from bielliptic_loop_three_Inr [OF l] obtain b2 b5 b10 where
    b: "bielliptic_delta_v (R_EARTH + a1) (R_EARTH + a2) (2 * max (R_EARTH + a1) (R_EARTH + a2)) = Inr b2"
       "bielliptic_delta_v (R_EARTH + a1) (R_EARTH + a2) (5 * max (R_EARTH + a1) (R_EARTH + a2)) = Inr b5"
       "bielliptic_delta_v (R_EARTH + a1) (R_EARTH + a2) (10 * max (R_EARTH + a1) (R_EARTH + a2)) = Inr b10"
    and best: "best = Finite (min b2 (min b5 b10))"
    by blast
  from p best have "plan = (if min b2 (min b5 b10) < dv_h
              then \<lparr>method_name = ''bi-elliptic'', delta_v_kms = min b2 (min b5 b10)\<rparr>
              else \<lparr>method_name = ''hohmann'', delta_v_kms = dv_h\<rparr>)"
    by (simp split: if_splits)
  with h b show ?thesis
    by blast
qed

lemma choose_transfer_returns:
  assumes "0 < R_EARTH + a1" "0 < R_EARTH + a2"
  shows "\<exists>plan. choose_transfer a1 a2 = Inr plan"
proof -
  have m: "0 < max (R_EARTH + a1) (R_EARTH + a2)"
    using assms by simp
  then have "0 < 2 * max (R_EARTH + a1) (R_EARTH + a2)" "0 < 5 * max (R_EARTH + a1) (R_EARTH + a2)"
    "0 < 10 * max (R_EARTH + a1) (R_EARTH + a2)"
    by simp_all
  then obtain b2 b5 b10 where
    "bielliptic_delta_v (R_EARTH + a1) (R_EARTH + a2) (2 * max (R_EARTH + a1) (R_EARTH + a2)) = Inr b2"
    "bielliptic_delta_v (R_EARTH + a1) (R_EARTH + a2) (5 * max (R_EARTH + a1) (R_EARTH + a2)) = Inr b5"
    "bielliptic_delta_v (R_EARTH + a1) (R_EARTH + a2) (10 * max (R_EARTH + a1) (R_EARTH + a2)) = Inr b10"
    using bielliptic_value [OF assms] by blast
  then have l: "bielliptic_loop (R_EARTH + a1) (R_EARTH + a2) [2, 5, 10] PosInf
      = Inr (Finite (min b2 (min b5 b10)))"
    by (rule bielliptic_loop_three)
  obtain dv_h where h: "hohmann_delta_v (R_EARTH + a1) (R_EARTH + a2) = Inr dv_h"
    using hohmann_value [OF assms] by blast
  show ?thesis
    unfolding choose_transfer_def Let_def h l by simp
qed

text \<open>
  Claim C4. Whenever \<^verbatim>\<open>choose_transfer\<close> returns, it has evaluated the Hohmann cost between
  \<open>r1 = R_EARTH + initial\<close> and \<open>r2 = R_EARTH + final\<close> and the bi-elliptic cost at the three
  apoapses \<open>m * max r1 r2\<close>, \<open>m = 2, 5, 10\<close>, and returns the least bi-elliptic cost tagged
  \<open>bi-elliptic\<close> if it is below the Hohmann cost, the Hohmann cost tagged \<open>hohmann\<close>
  otherwise. It returns for every pair of altitudes whose radii are positive.
\<close>

theorem choose_transfer_selects:
  "(0 < R_EARTH + a1 \<and> 0 < R_EARTH + a2 \<longrightarrow> (\<exists>plan. choose_transfer a1 a2 = Inr plan))
   \<and> (\<forall>plan. choose_transfer a1 a2 = Inr plan \<longrightarrow>
        (\<exists>dv_h b2 b5 b10.
            hohmann_delta_v (R_EARTH + a1) (R_EARTH + a2) = Inr dv_h
          \<and> bielliptic_delta_v (R_EARTH + a1) (R_EARTH + a2) (2 * max (R_EARTH + a1) (R_EARTH + a2)) = Inr b2
          \<and> bielliptic_delta_v (R_EARTH + a1) (R_EARTH + a2) (5 * max (R_EARTH + a1) (R_EARTH + a2)) = Inr b5
          \<and> bielliptic_delta_v (R_EARTH + a1) (R_EARTH + a2) (10 * max (R_EARTH + a1) (R_EARTH + a2)) = Inr b10
          \<and> plan = (if min b2 (min b5 b10) < dv_h
                    then \<lparr>method_name = ''bi-elliptic'', delta_v_kms = min b2 (min b5 b10)\<rparr>
                    else \<lparr>method_name = ''hohmann'', delta_v_kms = dv_h\<rparr>)))"
  using choose_transfer_returns choose_transfer_Inr by blast

text \<open>
  The selection from 500 km to 600 km.
\<close>

theorem choose_transfer_selects_witness:
  "\<exists>plan dv_h b2 b5 b10.
      choose_transfer 500 600 = Inr plan
    \<and> hohmann_delta_v (R_EARTH + 500) (R_EARTH + 600) = Inr dv_h
    \<and> bielliptic_delta_v (R_EARTH + 500) (R_EARTH + 600) (2 * max (R_EARTH + 500) (R_EARTH + 600)) = Inr b2
    \<and> bielliptic_delta_v (R_EARTH + 500) (R_EARTH + 600) (5 * max (R_EARTH + 500) (R_EARTH + 600)) = Inr b5
    \<and> bielliptic_delta_v (R_EARTH + 500) (R_EARTH + 600) (10 * max (R_EARTH + 500) (R_EARTH + 600)) = Inr b10
    \<and> plan = (if min b2 (min b5 b10) < dv_h
              then \<lparr>method_name = ''bi-elliptic'', delta_v_kms = min b2 (min b5 b10)\<rparr>
              else \<lparr>method_name = ''hohmann'', delta_v_kms = dv_h\<rparr>)"
proof -
  have "0 < R_EARTH + 500 \<and> 0 < R_EARTH + 600"
    by (simp add: R_EARTH_def)
  with choose_transfer_selects [of 500 600] show ?thesis
    by blast
qed

text \<open>
  Claim C9. The delta-v that \<^verbatim>\<open>choose_transfer\<close> returns is at most the Hohmann cost between
  the two radii. The best bi-elliptic cost is the least of the costs at the three candidate
  apoapses \<open>m * max r1 r2\<close>, \<open>m = 2, 5, 10\<close>; the tag is \<open>bi-elliptic\<close> exactly when that
  least cost is strictly below the Hohmann cost, and then the plan carries it; on a tie, and
  whenever Hohmann is cheaper, the tag is \<open>hohmann\<close> and the plan carries the Hohmann cost.
\<close>

theorem choose_transfer_at_most_hohmann:
  "(0 < R_EARTH + a1 \<and> 0 < R_EARTH + a2 \<longrightarrow> (\<exists>plan. choose_transfer a1 a2 = Inr plan))
   \<and> (\<forall>plan. choose_transfer a1 a2 = Inr plan \<longrightarrow>
        (\<exists>dv_h b2 b5 b10 best.
            hohmann_delta_v (R_EARTH + a1) (R_EARTH + a2) = Inr dv_h
          \<and> bielliptic_delta_v (R_EARTH + a1) (R_EARTH + a2) (2 * max (R_EARTH + a1) (R_EARTH + a2)) = Inr b2
          \<and> bielliptic_delta_v (R_EARTH + a1) (R_EARTH + a2) (5 * max (R_EARTH + a1) (R_EARTH + a2)) = Inr b5
          \<and> bielliptic_delta_v (R_EARTH + a1) (R_EARTH + a2) (10 * max (R_EARTH + a1) (R_EARTH + a2)) = Inr b10
          \<and> best = min b2 (min b5 b10)
          \<and> bielliptic_loop (R_EARTH + a1) (R_EARTH + a2) [2, 5, 10] PosInf = Inr (Finite best)
          \<and> delta_v_kms plan \<le> dv_h
          \<and> delta_v_kms plan = min dv_h best
          \<and> (method_name plan = ''bi-elliptic'' \<longleftrightarrow> best < dv_h)
          \<and> (method_name plan = ''hohmann'' \<longleftrightarrow> dv_h \<le> best)
          \<and> (best = dv_h \<longrightarrow> method_name plan = ''hohmann'' \<and> delta_v_kms plan = dv_h)))"
proof (intro conjI allI impI)
  assume "0 < R_EARTH + a1 \<and> 0 < R_EARTH + a2"
  then show "\<exists>plan. choose_transfer a1 a2 = Inr plan"
    by (simp add: choose_transfer_returns)
next
  fix plan
  assume "choose_transfer a1 a2 = Inr plan"
  from choose_transfer_Inr [OF this] obtain dv_h b2 b5 b10 where
    h: "hohmann_delta_v (R_EARTH + a1) (R_EARTH + a2) = Inr dv_h"
    and b: "bielliptic_delta_v (R_EARTH + a1) (R_EARTH + a2) (2 * max (R_EARTH + a1) (R_EARTH + a2)) = Inr b2"
       "bielliptic_delta_v (R_EARTH + a1) (R_EARTH + a2) (5 * max (R_EARTH + a1) (R_EARTH + a2)) = Inr b5"
       "bielliptic_delta_v (R_EARTH + a1) (R_EARTH + a2) (10 * max (R_EARTH + a1) (R_EARTH + a2)) = Inr b10"
    and p: "plan = (if min b2 (min b5 b10) < dv_h
              then \<lparr>method_name = ''bi-elliptic'', delta_v_kms = min b2 (min b5 b10)\<rparr>
              else \<lparr>method_name = ''hohmann'', delta_v_kms = dv_h\<rparr>)"
    by blast
  define best where "best = min b2 (min b5 b10)"
  have l: "bielliptic_loop (R_EARTH + a1) (R_EARTH + a2) [2, 5, 10] PosInf = Inr (Finite best)"
    unfolding best_def using b by (rule bielliptic_loop_three)
  have p': "plan = (if best < dv_h
              then \<lparr>method_name = ''bi-elliptic'', delta_v_kms = best\<rparr>
              else \<lparr>method_name = ''hohmann'', delta_v_kms = dv_h\<rparr>)"
    unfolding best_def by (rule p)
  have "delta_v_kms plan \<le> dv_h"
    and "delta_v_kms plan = min dv_h best"
    and "method_name plan = ''bi-elliptic'' \<longleftrightarrow> best < dv_h"
    and "method_name plan = ''hohmann'' \<longleftrightarrow> dv_h \<le> best"
    and "best = dv_h \<longrightarrow> method_name plan = ''hohmann'' \<and> delta_v_kms plan = dv_h"
    unfolding p' by (auto simp: not_less min_def)
  with h b l best_def show "\<exists>dv_h b2 b5 b10 best.
            hohmann_delta_v (R_EARTH + a1) (R_EARTH + a2) = Inr dv_h
          \<and> bielliptic_delta_v (R_EARTH + a1) (R_EARTH + a2) (2 * max (R_EARTH + a1) (R_EARTH + a2)) = Inr b2
          \<and> bielliptic_delta_v (R_EARTH + a1) (R_EARTH + a2) (5 * max (R_EARTH + a1) (R_EARTH + a2)) = Inr b5
          \<and> bielliptic_delta_v (R_EARTH + a1) (R_EARTH + a2) (10 * max (R_EARTH + a1) (R_EARTH + a2)) = Inr b10
          \<and> best = min b2 (min b5 b10)
          \<and> bielliptic_loop (R_EARTH + a1) (R_EARTH + a2) [2, 5, 10] PosInf = Inr (Finite best)
          \<and> delta_v_kms plan \<le> dv_h
          \<and> delta_v_kms plan = min dv_h best
          \<and> (method_name plan = ''bi-elliptic'' \<longleftrightarrow> best < dv_h)
          \<and> (method_name plan = ''hohmann'' \<longleftrightarrow> dv_h \<le> best)
          \<and> (best = dv_h \<longrightarrow> method_name plan = ''hohmann'' \<and> delta_v_kms plan = dv_h)"
    by blast
qed

text \<open>
  The bound from 500 km to 36000 km.
\<close>

theorem choose_transfer_at_most_hohmann_witness:
  "\<exists>plan dv_h b2 b5 b10 best.
      choose_transfer 500 36000 = Inr plan
    \<and> hohmann_delta_v (R_EARTH + 500) (R_EARTH + 36000) = Inr dv_h
    \<and> bielliptic_delta_v (R_EARTH + 500) (R_EARTH + 36000) (2 * max (R_EARTH + 500) (R_EARTH + 36000)) = Inr b2
    \<and> bielliptic_delta_v (R_EARTH + 500) (R_EARTH + 36000) (5 * max (R_EARTH + 500) (R_EARTH + 36000)) = Inr b5
    \<and> bielliptic_delta_v (R_EARTH + 500) (R_EARTH + 36000) (10 * max (R_EARTH + 500) (R_EARTH + 36000)) = Inr b10
    \<and> best = min b2 (min b5 b10)
    \<and> delta_v_kms plan \<le> dv_h
    \<and> delta_v_kms plan = min dv_h best
    \<and> (method_name plan = ''bi-elliptic'' \<longleftrightarrow> best < dv_h)
    \<and> (method_name plan = ''hohmann'' \<longleftrightarrow> dv_h \<le> best)"
proof -
  have "0 < R_EARTH + 500 \<and> 0 < R_EARTH + 36000"
    by (simp add: R_EARTH_def)
  with choose_transfer_at_most_hohmann [of 500 36000] show ?thesis
    by blast
qed

text \<open>
  Claim C6 says that for equal radii the bi-elliptic cost at each candidate apoapsis is zero.
  At \<open>r1 = r2 = 6871\<close> (the 500 km orbit) and the apoapsis \<open>2 * max r1 r2\<close> it is not.
\<close>

theorem bielliptic_equal_radii_counterexample:
  "bielliptic_delta_v 6871 6871 (2 * max 6871 6871) \<noteq> Inr 0"
  using bielliptic_same_pos [of 6871 2] by auto

text \<open>
  Claim C6, amended. For equal radii \<open>r > 0\<close> nothing divides by zero: both formulas return a
  value. The Hohmann cost is nonnegative, and the bi-elliptic cost at each candidate apoapsis
  \<open>m * r\<close>, \<open>m = 2, 5, 10\<close>, is strictly positive (the vehicle climbs to the apoapsis and comes
  back) and strictly above the Hohmann cost, so the selector returns the Hohmann plan with
  the Hohmann cost.
\<close>

theorem degenerate_transfer:
  "0 < r \<Longrightarrow>
     (\<exists>d. hohmann_delta_v r r = Inr d \<and> 0 \<le> d
        \<and> (\<forall>m \<in> {2, 5, 10}. \<exists>b. bielliptic_delta_v r r (m * max r r) = Inr b \<and> 0 < b \<and> d < b)
        \<and> (\<forall>a. R_EARTH + a = r \<longrightarrow>
              choose_transfer a a = Inr \<lparr>method_name = ''hohmann'', delta_v_kms = d\<rparr>))"
proof -
  assume r: "0 < r"
  have h: "hohmann_delta_v r r = Inr 0"
    using r by (rule hohmann_same)
  have b: "\<exists>b. bielliptic_delta_v r r (m * max r r) = Inr b \<and> 0 < b \<and> 0 < b" if "m \<in> {2, 5, 10}" for m
  proof -
    from that have "1 < m"
      by auto
    with r show ?thesis
      by (simp add: bielliptic_same_pos)
  qed
  have c: "choose_transfer a a = Inr \<lparr>method_name = ''hohmann'', delta_v_kms = 0\<rparr>" if a: "R_EARTH + a = r" for a
  proof -
    from r a have pos: "0 < R_EARTH + a"
      by simp
    then obtain plan where plan: "choose_transfer a a = Inr plan"
      using choose_transfer_returns by blast
    from choose_transfer_Inr [OF plan] obtain b2 b5 b10 where
      b: "bielliptic_delta_v (R_EARTH + a) (R_EARTH + a) (2 * max (R_EARTH + a) (R_EARTH + a)) = Inr b2"
         "bielliptic_delta_v (R_EARTH + a) (R_EARTH + a) (5 * max (R_EARTH + a) (R_EARTH + a)) = Inr b5"
         "bielliptic_delta_v (R_EARTH + a) (R_EARTH + a) (10 * max (R_EARTH + a) (R_EARTH + a)) = Inr b10"
      and p: "plan = (if min b2 (min b5 b10) < 0
              then \<lparr>method_name = ''bi-elliptic'', delta_v_kms = min b2 (min b5 b10)\<rparr>
              else \<lparr>method_name = ''hohmann'', delta_v_kms = 0\<rparr>)"
      by (auto simp: hohmann_same [OF pos])
    from b have "0 \<le> b2" "0 \<le> b5" "0 \<le> b10"
      by (auto dest: bielliptic_nonneg)
    with p plan show ?thesis
      by simp
  qed
  from h b c show ?thesis
    by (intro exI [of _ 0]) simp
qed

text \<open>
  The degenerate transfer on the 200 km orbit, of radius 6571 km.
\<close>

theorem degenerate_transfer_witness:
  "\<exists>d. hohmann_delta_v 6571 6571 = Inr d \<and> 0 \<le> d
     \<and> (\<exists>b. bielliptic_delta_v 6571 6571 (2 * max 6571 6571) = Inr b \<and> 0 < b \<and> d < b)
     \<and> choose_transfer 200 200 = Inr \<lparr>method_name = ''hohmann'', delta_v_kms = d\<rparr>"
proof -
  have "(0::real) < 6571"
    by simp
  from degenerate_transfer [OF this] obtain d where
    "hohmann_delta_v 6571 6571 = Inr d" "0 \<le> d"
    and b: "\<forall>m \<in> {2, 5, 10}. \<exists>b. bielliptic_delta_v 6571 6571 (m * max 6571 6571) = Inr b \<and> 0 < b \<and> d < b"
    and c: "\<forall>a. R_EARTH + a = 6571 \<longrightarrow>
              choose_transfer a a = Inr \<lparr>method_name = ''hohmann'', delta_v_kms = d\<rparr>"
    by blast
  moreover from b have "\<exists>b. bielliptic_delta_v 6571 6571 (2 * max 6571 6571) = Inr b \<and> 0 < b \<and> d < b"
    by simp
  moreover have "R_EARTH + 200 = 6571"
    by (simp add: R_EARTH_def)
  with c have "choose_transfer 200 200 = Inr \<lparr>method_name = ''hohmann'', delta_v_kms = d\<rparr>"
    by blast
  ultimately show ?thesis
    by blast
qed

section \<open>The plane change\<close>

lemma inclination_value:
  "0 < R_EARTH + h \<Longrightarrow>
     inclination_change_delta_v h d = Inr (2 * sqrt (MU_EARTH / (R_EARTH + h)) * sin (math_radians d / 2))"
  by (simp add: inclination_change_delta_v_def orbital_velocity_pos Let_def)

text \<open>
  Claim C8. At every altitude \<open>h\<close> with a positive orbit radius, the plane-change cost of
  a zero inclination change is zero, and the cost is strictly increasing in the inclination
  change over \<open>[0, 180]\<close> degrees.
\<close>

theorem inclination_zero_and_monotone:
  "0 < R_EARTH + h \<Longrightarrow>
     inclination_change_delta_v h 0 = Inr 0
   \<and> (\<forall>d1 d2. 0 \<le> d1 \<and> d1 < d2 \<and> d2 \<le> 180 \<longrightarrow>
        (\<exists>v1 v2. inclination_change_delta_v h d1 = Inr v1
                \<and> inclination_change_delta_v h d2 = Inr v2 \<and> v1 < v2))"
proof (intro conjI allI impI)
  assume h: "0 < R_EARTH + h"
  show "inclination_change_delta_v h 0 = Inr 0"
    by (simp add: inclination_value h math_radians_def)
  fix d1 d2 :: real
  assume d: "0 \<le> d1 \<and> d1 < d2 \<and> d2 \<le> 180"
  have v: "0 < sqrt (MU_EARTH / (R_EARTH + h))"
    using h MU_EARTH_pos by simp
  have "- (pi / 2) \<le> math_radians d1 / 2"
  proof -
    have "0 \<le> math_radians d1 / 2"
      using d by (simp add: math_radians_def)
    moreover have "- (pi / 2) \<le> 0"
      by simp
    ultimately show ?thesis
      by linarith
  qed
  moreover have "math_radians d1 / 2 < math_radians d2 / 2"
    using d by (simp add: math_radians_def)
  moreover have "math_radians d2 / 2 \<le> pi / 2"
  proof -
    have "d2 * pi \<le> 180 * pi"
      using d by (intro mult_right_mono) simp_all
    then show ?thesis
      by (simp add: math_radians_def)
  qed
  ultimately have "sin (math_radians d1 / 2) < sin (math_radians d2 / 2)"
    by (rule sin_monotone_2pi)
  with v have "2 * sqrt (MU_EARTH / (R_EARTH + h)) * sin (math_radians d1 / 2)
      < 2 * sqrt (MU_EARTH / (R_EARTH + h)) * sin (math_radians d2 / 2)"
    by simp
  then show "\<exists>v1 v2. inclination_change_delta_v h d1 = Inr v1
                \<and> inclination_change_delta_v h d2 = Inr v2 \<and> v1 < v2"
    by (simp add: inclination_value h)
qed

text \<open>
  The plane change at 500 km: zero for 0 degrees, and 5 degrees cost less than 30.
\<close>

theorem inclination_zero_and_monotone_witness:
  "inclination_change_delta_v 500 0 = Inr 0
   \<and> (\<exists>v1 v2. inclination_change_delta_v 500 5 = Inr v1
             \<and> inclination_change_delta_v 500 30 = Inr v2 \<and> v1 < v2)"
proof -
  have "0 < R_EARTH + 500"
    by (simp add: R_EARTH_def)
  from inclination_zero_and_monotone [OF this] show ?thesis
    by simp
qed

section \<open>The altitude grid\<close>

lemma py_range_set:
  "0 < step \<Longrightarrow> set (py_range start stop step) = {h. start \<le> h \<and> h < stop \<and> step dvd (h - start)}"
proof (induction start stop step rule: py_range.induct)
  case (1 start stop step)
  show ?case
  proof (cases "start < stop")
    case True
    have "{h. start \<le> h \<and> h < stop \<and> step dvd (h - start)}
        = insert start {h. start + step \<le> h \<and> h < stop \<and> step dvd (h - (start + step))}"
    proof (intro set_eqI iffI)
      fix h
      assume "h \<in> {h. start \<le> h \<and> h < stop \<and> step dvd (h - start)}"
      then have h: "start \<le> h" "h < stop" "step dvd (h - start)"
        by simp_all
      show "h \<in> insert start {h. start + step \<le> h \<and> h < stop \<and> step dvd (h - (start + step))}"
      proof (cases "h = start")
        case False
        with h have "0 < h - start"
          by simp
        with h(3) have "step \<le> h - start"
          by (rule zdvd_imp_le)
        moreover have "step dvd (h - (start + step))"
        proof -
          have "h - (start + step) = (h - start) - step"
            by simp
          moreover from h(3) have "step dvd (h - start) - step"
            by (rule dvd_diff) (rule dvd_refl)
          ultimately show ?thesis
            by (simp only:)
        qed
        ultimately show ?thesis
          using h by simp
      qed simp
    next
      fix h
      assume "h \<in> insert start {h. start + step \<le> h \<and> h < stop \<and> step dvd (h - (start + step))}"
      then consider "h = start" | "start + step \<le> h" "h < stop" "step dvd (h - (start + step))"
        by auto
      then show "h \<in> {h. start \<le> h \<and> h < stop \<and> step dvd (h - start)}"
      proof cases
        case 1
        with True show ?thesis
          by simp
      next
        case 2
        have "h - start = (h - (start + step)) + step"
          by simp
        moreover from 2(3) have "step dvd (h - (start + step)) + step"
          by (rule dvd_add) (rule dvd_refl)
        ultimately have "step dvd (h - start)"
          by (simp only:)
        with 2 "1.prems" show ?thesis
          by simp
      qed
    qed
    moreover have "py_range start stop step = start # py_range (start + step) stop step"
      using True "1.prems" by (subst py_range.simps) simp
    moreover have "set (py_range (start + step) stop step)
        = {h. start + step \<le> h \<and> h < stop \<and> step dvd (h - (start + step))}"
      using True "1.prems" by (intro "1.IH") simp_all
    ultimately show ?thesis
      by simp
  next
    case False
    then have "py_range start stop step = []"
      by (subst py_range.simps) simp
    with False show ?thesis
      by auto
  qed
qed

lemma ltan_grid: "set (py_range 400 900 5) = {h. 400 \<le> h \<and> h \<le> 895 \<and> 5 dvd h}"
proof -
  have "set (py_range 400 900 5) = {h. 400 \<le> h \<and> h < 900 \<and> 5 dvd (h - 400)}"
    by (rule py_range_set) simp
  also have "\<dots> = {h. 400 \<le> h \<and> h \<le> 895 \<and> 5 dvd h}"
    by (intro set_eqI) (simp, presburger)
  finally show ?thesis .
qed

lemma ltan_grid_list: "py_range 400 900 5 = map (\<lambda>k. 400 + 5 * int k) [0..<100]"
  by code_simp

section \<open>The LTAN search\<close>

lemma math_degrees_abs_diff:
  "math_degrees \<bar>x - math_radians d\<bar> = \<bar>math_degrees x - d\<bar>"
proof -
  have "\<bar>180 / pi\<bar> = 180 / pi"
    by simp
  then have "\<bar>x - d * (pi / 180)\<bar> * (180 / pi) = \<bar>(x - d * (pi / 180)) * (180 / pi)\<bar>"
    by (simp only: abs_mult)
  also have "(x - d * (pi / 180)) * (180 / pi) = x * (180 / pi) - d"
    by (simp add: algebra_simps)
  finally show ?thesis
    by (simp add: math_degrees_def math_radians_def)
qed

lemma candidate_cos_i_returns:
  assumes "0 < R_EARTH + of_int h"
  shows "\<exists>c. candidate_cos_i drift_rate h = Inr c"
proof -
  let ?a = "R_EARTH + of_int h"
  have a3: "?a ^ 3 \<noteq> 0" and a2: "?a ^ 2 \<noteq> 0"
    using assms by simp_all
  have q: "0 < MU_EARTH / ?a ^ 3"
    using assms MU_EARTH_pos by simp
  then have n: "0 < sqrt (MU_EARTH / ?a ^ 3)"
    by simp
  have "- 1.5 * J2 * R_EARTH ^ 2 * sqrt (MU_EARTH / ?a ^ 3) \<noteq> 0"
    using n MU_EARTH_pos assms by (simp add: J2_def R_EARTH_def)
  then have df: "- 1.5 * J2 * R_EARTH ^ 2 * sqrt (MU_EARTH / ?a ^ 3) / ?a ^ 2 \<noteq> 0"
    using a2 by simp
  have s: "math_sqrt (MU_EARTH / ?a ^ 3) = Inr (sqrt (MU_EARTH / ?a ^ 3))"
    using q by (simp add: math_sqrt_def)
  show ?thesis
    unfolding candidate_cos_i_def Let_def
    by (simp only: py_truediv_def a3 a2 df if_False py_bind_Inr s) simp
qed

lemma candidate_cos_i_zero_drift:
  assumes "0 < R_EARTH + of_int h"
  shows "candidate_cos_i 0 h = Inr 0"
proof -
  from candidate_cos_i_returns [OF assms] obtain c where c: "candidate_cos_i 0 h = Inr c"
    by blast
  then have "c = 0"
    by (auto simp: candidate_cos_i_def Let_def py_bind_eq_Inr py_truediv_def math_radians_def
        split: if_splits)
  with c show ?thesis
    by simp
qed

lemma ltan_step_cases:
  assumes "ltan_step alt rate days h (best, m) = Inr st'"
  obtains (skip) c where "candidate_cos_i rate h = Inr c" "\<not> \<bar>c\<bar> \<le> 1" "st' = (best, m)"
  | (cand) c dv_alt dv_inc where "candidate_cos_i rate h = Inr c" "\<bar>c\<bar> \<le> 1"
      "hohmann_delta_v (R_EARTH + alt) (R_EARTH + of_int h) = Inr dv_alt"
      "inclination_change_delta_v (of_int h) \<bar>math_degrees (arccos c) - 98.6\<bar> = Inr dv_inc"
      "st' = (if float_less (Finite (dv_alt + dv_inc)) m
              then (Some \<lparr>new_altitude_km = h,
                          new_inclination_deg = math_degrees (arccos c),
                          total_delta_v_kms = dv_alt + dv_inc,
                          required_drift_deg_per_day = rate,
                          duration_days = days\<rparr>, Finite (dv_alt + dv_inc))
              else (best, m))"
proof -
  from assms obtain c where c: "candidate_cos_i rate h = Inr c"
    and rest: "(if \<bar>c\<bar> \<le> 1 then
          py_bind (math_acos c) (\<lambda>i_rad.
          py_bind (hohmann_delta_v (R_EARTH + alt) (R_EARTH + of_int h)) (\<lambda>dv_alt.
          py_bind (inclination_change_delta_v (of_int h) (math_degrees \<bar>i_rad - math_radians 98.6\<bar>)) (\<lambda>dv_inc.
          if float_less (Finite (dv_alt + dv_inc)) m then
            Inr (Some \<lparr>new_altitude_km = h,
                        new_inclination_deg = math_degrees i_rad,
                        total_delta_v_kms = dv_alt + dv_inc,
                        required_drift_deg_per_day = rate,
                        duration_days = days\<rparr>,
                 Finite (dv_alt + dv_inc))
          else Inr (best, m))))
        else Inr (best, m)) = (Inr st' :: py_error + (ltan_solution option \<times> pyfloat))"
    unfolding ltan_step_def Let_def py_bind_eq_Inr prod.case by blast
  show thesis
  proof (cases "\<bar>c\<bar> \<le> 1")
    case False
    with rest have "st' = (best, m)"
      by simp
    with c False show thesis
      by (rule skip)
  next
    case True
    then have "math_acos c = Inr (arccos c)"
      by (auto simp: math_acos_def)
    with rest True obtain dv_alt dv_inc where
      "hohmann_delta_v (R_EARTH + alt) (R_EARTH + of_int h) = Inr dv_alt"
      "inclination_change_delta_v (of_int h) \<bar>math_degrees (arccos c) - 98.6\<bar> = Inr dv_inc"
      "(if float_less (Finite (dv_alt + dv_inc)) m then
            Inr (Some \<lparr>new_altitude_km = h,
                        new_inclination_deg = math_degrees (arccos c),
                        total_delta_v_kms = dv_alt + dv_inc,
                        required_drift_deg_per_day = rate,
                        duration_days = days\<rparr>,
                 Finite (dv_alt + dv_inc))
          else Inr (best, m)) = (Inr st' :: py_error + (ltan_solution option \<times> pyfloat))"
      by (auto simp: py_bind_eq_Inr math_degrees_abs_diff)
    then show thesis
      using c True by (intro cand [of c dv_alt dv_inc]) (auto split: if_splits)
  qed
qed

lemma ltan_loop_invariant:
  assumes "ltan_loop alt rate days hs st = Inr st'"
    and "P seen st"
    and "\<And>seen h st st1. P seen st \<Longrightarrow> h \<in> set hs \<Longrightarrow> ltan_step alt rate days h st = Inr st1
           \<Longrightarrow> P (seen @ [h]) st1"
  shows "P (seen @ hs) st'"
  using assms
proof (induction hs arbitrary: seen st)
  case Nil
  then show ?case
    by simp
next
  case (Cons h hs)
  from Cons.prems(1) obtain st1 where
    s: "ltan_step alt rate days h st = Inr st1" and l: "ltan_loop alt rate days hs st1 = Inr st'"
    by (auto simp: py_bind_eq_Inr)
  have "P (seen @ [h]) st1"
    using Cons.prems(2) s by (intro Cons.prems(3)) simp_all
  with l have "P ((seen @ [h]) @ hs) st'"
    by (rule Cons.IH) (rule Cons.prems(3), simp_all)
  then show ?case
    by simp
qed

lemma ltan_step_invariant:
  assumes inv: "ltan_invariant alt rate days seen st"
    and step: "ltan_step alt rate days h st = Inr st1"
  shows "ltan_invariant alt rate days (seen @ [h]) st1"
proof -
  obtain best m where st: "st = (best, m)"
    by (cases st)
  from step [unfolded st] show ?thesis
  proof (cases rule: ltan_step_cases)
    case (skip c)
    then have "\<not> feasible rate h"
      by (simp add: feasible_def)
    with inv skip(3) st show ?thesis
      by (auto simp: ltan_invariant_def split: option.splits)
  next
    case (cand c dv_alt dv_inc)
    let ?t = "dv_alt + dv_inc"
    have f: "feasible rate h"
      using cand(1,2) by (simp add: feasible_def)
    have cost: "spec_candidate_cost alt rate h = Inr ?t"
      using cand(1,3,4) by (simp add: spec_candidate_cost_def)
    show ?thesis
    proof (cases best)
      case None
      with inv st have m: "m = PosInf" and none: "\<forall>h \<in> set seen. \<not> feasible rate h"
        by (simp_all add: ltan_invariant_def)
      with cand(5) have "st1 = (Some \<lparr>new_altitude_km = h,
                          new_inclination_deg = math_degrees (arccos c),
                          total_delta_v_kms = ?t,
                          required_drift_deg_per_day = rate,
                          duration_days = days\<rparr>, Finite ?t)"
        by simp
      with none cost cand(1,2) show ?thesis
        by (simp add: ltan_invariant_def)
    next
      case (Some s)
      with inv st have m: "m = Finite (total_delta_v_kms s)"
        and old: "ltan_invariant alt rate days seen (Some s, Finite (total_delta_v_kms s))"
        by (simp_all add: ltan_invariant_def)
      show ?thesis
      proof (cases "?t < total_delta_v_kms s")
        case True
        with cand(5) m have "st1 = (Some \<lparr>new_altitude_km = h,
                          new_inclination_deg = math_degrees (arccos c),
                          total_delta_v_kms = ?t,
                          required_drift_deg_per_day = rate,
                          duration_days = days\<rparr>, Finite ?t)"
          by simp
        moreover have "\<exists>t'. spec_candidate_cost alt rate h' = Inr t' \<and> ?t \<le> t'"
          if "h' \<in> set seen" "feasible rate h'" for h'
        proof -
          from old that obtain t' where
            "spec_candidate_cost alt rate h' = Inr t'" "total_delta_v_kms s \<le> t'"
            by (auto simp: ltan_invariant_def)
          with True show ?thesis
            by auto
        qed
        ultimately show ?thesis
          using cost cand(1,2) by (simp add: ltan_invariant_def)
      next
        case False
        with cand(5) m Some have "st1 = (Some s, Finite (total_delta_v_kms s))"
          by simp
        moreover from False cost have
          "\<exists>t. spec_candidate_cost alt rate h = Inr t \<and> total_delta_v_kms s \<le> t"
          by simp
        ultimately show ?thesis
          using old by (auto simp: ltan_invariant_def)
      qed
    qed
  qed
qed

lemma ltan_loop_result:
  assumes "ltan_loop alt rate days hs (None, PosInf) = Inr st'"
  shows "ltan_invariant alt rate days hs st'"
proof -
  have "ltan_invariant alt rate days [] (None, PosInf)"
    by (simp add: ltan_invariant_def)
  with assms have "ltan_invariant alt rate days ([] @ hs) st'"
    by (rule ltan_loop_invariant) (rule ltan_step_invariant)
  then show ?thesis
    by simp
qed

lemma ltan_step_skip:
  "candidate_cos_i rate h = Inr c \<Longrightarrow> \<not> \<bar>c\<bar> \<le> 1 \<Longrightarrow> ltan_step alt rate days h st = Inr st"
  by (cases st) (simp add: ltan_step_def)

lemma ltan_step_returns:
  assumes "0 < R_EARTH + alt" "0 < R_EARTH + of_int h"
  shows "\<exists>st1. ltan_step alt rate days h st = Inr st1"
proof -
  obtain best m where st: "st = (best, m)"
    by (cases st)
  from candidate_cos_i_returns [OF assms(2)] obtain c where c: "candidate_cos_i rate h = Inr c"
    by blast
  show ?thesis
  proof (cases "\<bar>c\<bar> \<le> 1")
    case False
    with c show ?thesis
      by (simp add: ltan_step_skip)
  next
    case True
    then have "math_acos c = Inr (arccos c)"
      by (auto simp: math_acos_def)
    then show ?thesis
      unfolding st ltan_step_def Let_def prod.case c py_bind_Inr
      by (simp add: True hohmann_value [OF assms] inclination_value [OF assms(2)])
  qed
qed

lemma ltan_loop_returns:
  assumes "0 < R_EARTH + alt" "\<forall>h \<in> set hs. 0 < R_EARTH + of_int h"
  shows "\<exists>st'. ltan_loop alt rate days hs st = Inr st'"
  using assms(2)
proof (induction hs arbitrary: st)
  case Nil
  show ?case
    by simp
next
  case (Cons h hs)
  then have "0 < R_EARTH + of_int h"
    by simp
  with assms(1) obtain st1 where "ltan_step alt rate days h st = Inr st1"
    using ltan_step_returns by blast
  moreover from Cons obtain st' where "ltan_loop alt rate days hs st1 = Inr st'"
    by fastforce
  ultimately show ?case
    by simp
qed

lemma ltan_loop_skip_all:
  assumes "\<forall>h \<in> set hs. 0 < R_EARTH + of_int h \<and> \<not> feasible rate h"
  shows "ltan_loop alt rate days hs st = Inr st"
  using assms
proof (induction hs)
  case Nil
  show ?case
    by simp
next
  case (Cons h hs)
  then have r: "0 < R_EARTH + of_int h" and nf: "\<not> feasible rate h"
    by simp_all
  from candidate_cos_i_returns [OF r] obtain c where c: "candidate_cos_i rate h = Inr c"
    by blast
  with nf have "\<not> \<bar>c\<bar> \<le> 1"
    by (simp add: feasible_def)
  with c have "ltan_step alt rate days h st = Inr st"
    by (rule ltan_step_skip)
  with Cons show ?case
    by simp
qed

lemma ltan_grid_radius_pos:
  "h \<in> set (py_range 400 900 5) \<Longrightarrow> 0 < R_EARTH + of_int h"
  by (simp add: ltan_grid R_EARTH_def)

lemma ltan_drift_adjustment_returns:
  assumes "days \<noteq> 0" "0 < R_EARTH + alt"
  shows "\<exists>res. ltan_drift_adjustment li lt alt days = Inr res"
proof -
  obtain st' where "ltan_loop alt (delta_ltan_deg li lt / days) days (py_range 400 900 5)
      (None, PosInf) = Inr st'"
    using ltan_loop_returns [OF assms(2)] ltan_grid_radius_pos by blast
  with assms(1) show ?thesis
    by (simp add: ltan_drift_adjustment_def required_drift_rate_def py_truediv_def)
qed

lemma ltan_drift_adjustment_Inr:
  assumes "ltan_drift_adjustment li lt alt days = Inr res"
  shows "days \<noteq> 0"
    and "\<exists>m. ltan_invariant alt (delta_ltan_deg li lt / days) days (py_range 400 900 5) (res, m)"
proof -
  from assms obtain rate st' where
    rate: "required_drift_rate li lt days = Inr rate"
    and loop: "ltan_loop alt rate days (py_range 400 900 5) (None, PosInf) = Inr st'"
    and res: "res = fst st'"
    by (auto simp: ltan_drift_adjustment_def py_bind_eq_Inr)
  from rate show "days \<noteq> 0"
    by (auto simp: required_drift_rate_def py_truediv_def split: if_splits)
  with rate have "rate = delta_ltan_deg li lt / days"
    by (simp add: required_drift_rate_def py_truediv_def)
  with ltan_loop_result [OF loop] res
  show "\<exists>m. ltan_invariant alt (delta_ltan_deg li lt / days) days (py_range 400 900 5) (res, m)"
    by (cases st') auto
qed

lemma ltan_drift_adjustment_none:
  assumes "days \<noteq> 0"
    and "\<forall>h \<in> set (py_range 400 900 5). \<not> feasible (delta_ltan_deg li lt / days) h"
  shows "ltan_drift_adjustment li lt alt days = Inr None"
proof -
  have "ltan_loop alt (delta_ltan_deg li lt / days) days (py_range 400 900 5) (None, PosInf)
      = Inr (None, PosInf)"
    using assms(2) ltan_grid_radius_pos by (intro ltan_loop_skip_all) blast
  with assms(1) show ?thesis
    by (simp add: ltan_drift_adjustment_def required_drift_rate_def py_truediv_def)
qed

text \<open>
  Claim C1. The candidate altitudes of \<^verbatim>\<open>ltan_drift_adjustment\<close> are 400, 405, ..., 895.
  Whatever it returns is the global minimum over that grid: \<open>None\<close> only if no grid
  altitude is feasible, and otherwise a feasible grid altitude whose recorded cost is the
  Hohmann cost from \<open>R_EARTH + initial_altitude\<close> to \<open>R_EARTH + h\<close> plus the plane-change cost
  of \<open>|arccos cos_i - 98.6|\<close> degrees, and every feasible grid altitude has a cost that is at
  least as large. It returns whenever the duration is not zero and the initial orbit radius
  is positive.
\<close>

theorem ltan_global_minimum:
  "py_range 400 900 5 = map (\<lambda>k. 400 + 5 * int k) [0..<100]
   \<and> (days \<noteq> 0 \<and> 0 < R_EARTH + alt \<longrightarrow> (\<exists>res. ltan_drift_adjustment li lt alt days = Inr res))
   \<and> (\<forall>res. ltan_drift_adjustment li lt alt days = Inr res \<longrightarrow>
        (case res of
           None \<Rightarrow> \<forall>h \<in> set (py_range 400 900 5). \<not> feasible (delta_ltan_deg li lt / days) h
         | Some s \<Rightarrow>
             new_altitude_km s \<in> set (py_range 400 900 5)
           \<and> feasible (delta_ltan_deg li lt / days) (new_altitude_km s)
           \<and> spec_candidate_cost alt (delta_ltan_deg li lt / days) (new_altitude_km s)
               = Inr (total_delta_v_kms s)
           \<and> (\<forall>h \<in> set (py_range 400 900 5). feasible (delta_ltan_deg li lt / days) h \<longrightarrow>
                 (\<exists>t. spec_candidate_cost alt (delta_ltan_deg li lt / days) h = Inr t
                     \<and> total_delta_v_kms s \<le> t))))"
proof (intro conjI allI impI)
  show "py_range 400 900 5 = map (\<lambda>k. 400 + 5 * int k) [0..<100]"
    by (rule ltan_grid_list)
next
  assume "days \<noteq> 0 \<and> 0 < R_EARTH + alt"
  then show "\<exists>res. ltan_drift_adjustment li lt alt days = Inr res"
    by (simp add: ltan_drift_adjustment_returns)
next
  fix res
  assume "ltan_drift_adjustment li lt alt days = Inr res"
  then obtain m where
    "ltan_invariant alt (delta_ltan_deg li lt / days) days (py_range 400 900 5) (res, m)"
    using ltan_drift_adjustment_Inr(2) by blast
  then show "case res of
           None \<Rightarrow> \<forall>h \<in> set (py_range 400 900 5). \<not> feasible (delta_ltan_deg li lt / days) h
         | Some s \<Rightarrow>
             new_altitude_km s \<in> set (py_range 400 900 5)
           \<and> feasible (delta_ltan_deg li lt / days) (new_altitude_km s)
           \<and> spec_candidate_cost alt (delta_ltan_deg li lt / days) (new_altitude_km s)
               = Inr (total_delta_v_kms s)
           \<and> (\<forall>h \<in> set (py_range 400 900 5). feasible (delta_ltan_deg li lt / days) h \<longrightarrow>
                 (\<exists>t. spec_candidate_cost alt (delta_ltan_deg li lt / days) h = Inr t
                     \<and> total_delta_v_kms s \<le> t))"
    by (auto simp: ltan_invariant_def feasible_def split: option.splits)
qed

lemma delta_ltan_deg_same: "delta_ltan_deg x x = 0"
  by (simp add: delta_ltan_deg_def py_mod_def)

lemma feasible_zero_drift: "feasible 0 400"
proof -
  have "0 < R_EARTH + of_int 400"
    by (simp add: R_EARTH_def)
  then have "candidate_cos_i 0 400 = Inr 0"
    by (rule candidate_cos_i_zero_drift)
  then show ?thesis
    by (simp add: feasible_def)
qed

lemma ltan_grid_400: "400 \<in> set (py_range 400 900 5)"
  by (simp add: ltan_grid)

lemma ltan_zero_drift_solution:
  assumes "days \<noteq> 0" "0 < R_EARTH + alt"
  shows "\<exists>s. ltan_drift_adjustment x x alt days = Inr (Some s)"
proof -
  from ltan_drift_adjustment_returns [OF assms] obtain res where
    res: "ltan_drift_adjustment x x alt days = Inr res"
    by blast
  then obtain m where "ltan_invariant alt (delta_ltan_deg x x / days) days (py_range 400 900 5) (res, m)"
    using ltan_drift_adjustment_Inr(2) by blast
  then have "res \<noteq> None"
    using feasible_zero_drift ltan_grid_400
    by (cases res) (auto simp: ltan_invariant_def delta_ltan_deg_same)
  with res show ?thesis
    by auto
qed

text \<open>
  With equal initial and target LTAN at 500 km over 90 days the required drift is zero, a
  solution is returned, and it costs at most what the first candidate, 400 km, costs.
\<close>

theorem ltan_global_minimum_witness:
  "\<exists>s. ltan_drift_adjustment 9 9 500 90 = Inr (Some s)
     \<and> new_altitude_km s \<in> set (map (\<lambda>k. 400 + 5 * int k) [0..<100])
     \<and> spec_candidate_cost 500 0 (new_altitude_km s) = Inr (total_delta_v_kms s)
     \<and> (\<exists>t. spec_candidate_cost 500 0 400 = Inr t \<and> total_delta_v_kms s \<le> t)"
proof -
  have "(90::real) \<noteq> 0" and "0 < R_EARTH + 500"
    by (simp_all add: R_EARTH_def)
  then obtain s where s: "ltan_drift_adjustment 9 9 500 90 = Inr (Some s)"
    using ltan_zero_drift_solution by blast
  have g: "py_range 400 900 5 = map (\<lambda>k. 400 + 5 * int k) [0..<100]"
    using ltan_global_minimum [of 90 500 9 9] by blast
  from ltan_global_minimum [of 90 500 9 9] s have
    "new_altitude_km s \<in> set (py_range 400 900 5)"
    "spec_candidate_cost 500 (delta_ltan_deg 9 9 / 90) (new_altitude_km s) = Inr (total_delta_v_kms s)"
    "\<forall>h \<in> set (py_range 400 900 5). feasible (delta_ltan_deg 9 9 / 90) h \<longrightarrow>
       (\<exists>t. spec_candidate_cost 500 (delta_ltan_deg 9 9 / 90) h = Inr t \<and> total_delta_v_kms s \<le> t)"
    by auto
  with s feasible_zero_drift ltan_grid_400 show ?thesis
    unfolding g [symmetric] by (auto simp: delta_ltan_deg_same)
qed

lemma candidate_cos_i_value:
  assumes "0 < R_EARTH + of_int h"
  shows "candidate_cos_i rate h =
    Inr (math_radians rate / 86400
       / (- 1.5 * J2 * R_EARTH ^ 2 * sqrt (MU_EARTH / (R_EARTH + of_int h) ^ 3) / (R_EARTH + of_int h) ^ 2))"
proof -
  from candidate_cos_i_returns [OF assms] obtain c where c: "candidate_cos_i rate h = Inr c"
    by blast
  then have "c = math_radians rate / 86400
       / (- 1.5 * J2 * R_EARTH ^ 2 * sqrt (MU_EARTH / (R_EARTH + of_int h) ^ 3) / (R_EARTH + of_int h) ^ 2)"
    by (auto simp: candidate_cos_i_def Let_def py_bind_eq_Inr py_truediv_def math_sqrt_def
        split: if_splits)
  with c show ?thesis
    by simp
qed

lemma half_turn_in_a_day_infeasible:
  assumes "h \<in> set (py_range 400 900 5)"
  shows "\<not> feasible (- 180) h"
proof -
  define a where "a = R_EARTH + of_int h"
  define n where "n = sqrt (MU_EARTH / a ^ 3)"
  define e where "e = 1.5 * J2 * (R_EARTH ^ 2 * n / a ^ 2)"
  from assms have a: "6771 \<le> a"
    by (simp add: ltan_grid a_def R_EARTH_def)
  then have apos: "0 < a"
    by simp
  have "(6771::real) ^ 3 \<le> a ^ 3"
    using a by (intro power_mono) simp_all
  then have "MU_EARTH * 10 ^ 4 \<le> a ^ 3"
    by (simp add: MU_EARTH_def)
  then have "MU_EARTH / a ^ 3 \<le> (1 / 100)\<^sup>2"
    using apos by (simp add: field_simps power2_eq_square)
  then have n100: "n \<le> 1 / 100"
    unfolding n_def by (intro real_le_lsqrt) simp_all
  have npos: "0 < n"
    unfolding n_def using apos MU_EARTH_pos by simp
  have "R_EARTH \<le> a"
    using a by (simp add: R_EARTH_def)
  then have "R_EARTH ^ 2 \<le> a ^ 2"
    using R_EARTH_pos by (intro power_mono) simp_all
  then have "R_EARTH ^ 2 / a ^ 2 \<le> 1"
    using apos by simp
  then have "n * (R_EARTH ^ 2 / a ^ 2) \<le> n * 1"
    using npos by (intro mult_left_mono) simp_all
  moreover have "R_EARTH ^ 2 * n / a ^ 2 = n * (R_EARTH ^ 2 / a ^ 2)"
    by simp
  ultimately have "R_EARTH ^ 2 * n / a ^ 2 \<le> 1 / 100"
    using n100 by linarith
  then have "e \<le> 1.5 * J2 * (1 / 100)"
    unfolding e_def by (intro mult_left_mono) (simp_all add: J2_def)
  also have "\<dots> < 2 / 86400"
    by (simp add: J2_def)
  also have "\<dots> \<le> pi / 86400"
    using pi_ge_two by simp
  finally have e_lt: "e < pi / 86400" .
  have epos: "0 < e"
    unfolding e_def using npos apos R_EARTH_pos by (simp add: J2_def)
  have "candidate_cos_i (- 180) h = Inr (math_radians (- 180) / 86400
       / (- 1.5 * J2 * R_EARTH ^ 2 * n / a ^ 2))"
    unfolding n_def a_def using apos [unfolded a_def] by (rule candidate_cos_i_value)
  also have "math_radians (- 180) / 86400 / (- 1.5 * J2 * R_EARTH ^ 2 * n / a ^ 2) = (pi / 86400) / e"
    by (simp add: math_radians_def e_def)
  finally have c: "candidate_cos_i (- 180) h = Inr ((pi / 86400) / e)" .
  have "1 < (pi / 86400) / e"
    using e_lt epos by simp
  then have "\<not> \<bar>(pi / 86400) / e\<bar> \<le> 1"
    by linarith
  then show ?thesis
    unfolding feasible_def c by simp
qed

lemma delta_ltan_deg_half_day: "delta_ltan_deg 0 12 = - 180"
  by (simp add: delta_ltan_deg_def py_mod_def)

text \<open>
  Claim C2. With a nonzero duration, \<^verbatim>\<open>ltan_drift_adjustment\<close> returns \<open>None\<close> (a value, not
  an exception) exactly when no altitude of the grid is feasible, and a candidate whose
  \<open>|cos_i|\<close> exceeds 1 leaves the state of the search unchanged and lets it go on.
\<close>

theorem ltan_no_solution_iff:
  "days \<noteq> 0 \<Longrightarrow>
     (ltan_drift_adjustment li lt alt days = Inr None
        \<longleftrightarrow> (\<forall>h \<in> set (py_range 400 900 5). \<not> feasible (delta_ltan_deg li lt / days) h))
   \<and> (\<forall>h c st. candidate_cos_i (delta_ltan_deg li lt / days) h = Inr c \<and> 1 < \<bar>c\<bar> \<longrightarrow>
         ltan_step alt (delta_ltan_deg li lt / days) days h st = Inr st)"
proof (intro conjI iffI allI impI)
  assume "ltan_drift_adjustment li lt alt days = Inr None"
  then obtain m where
    "ltan_invariant alt (delta_ltan_deg li lt / days) days (py_range 400 900 5) (None, m)"
    using ltan_drift_adjustment_Inr(2) by blast
  then show "\<forall>h \<in> set (py_range 400 900 5). \<not> feasible (delta_ltan_deg li lt / days) h"
    by (simp add: ltan_invariant_def)
next
  assume "days \<noteq> 0" "\<forall>h \<in> set (py_range 400 900 5). \<not> feasible (delta_ltan_deg li lt / days) h"
  then show "ltan_drift_adjustment li lt alt days = Inr None"
    by (rule ltan_drift_adjustment_none)
next
  fix h c st
  assume "candidate_cos_i (delta_ltan_deg li lt / days) h = Inr c \<and> 1 < \<bar>c\<bar>"
  then show "ltan_step alt (delta_ltan_deg li lt / days) days h st = Inr st"
    by (intro ltan_step_skip [of _ _ c]) simp_all
qed

text \<open>
  Half a turn of the node in one day is beyond every altitude of the grid: no solution. No
  drift at all is feasible: some solution.
\<close>

theorem ltan_no_solution_iff_witness:
  "ltan_drift_adjustment 0 12 500 1 = Inr None \<and> ltan_drift_adjustment 9 9 500 90 \<noteq> Inr None"
proof -
  have "(1::real) \<noteq> 0" and "(90::real) \<noteq> 0"
    by simp_all
  from ltan_no_solution_iff [OF this(1), of 0 12 500] ltan_no_solution_iff [OF this(2), of 9 9 500]
  show ?thesis
    using half_turn_in_a_day_infeasible feasible_zero_drift ltan_grid_400
    by (auto simp: delta_ltan_deg_half_day delta_ltan_deg_same)
qed

lemma inclination_nonneg:
  assumes "inclination_change_delta_v h d = Inr v" "0 \<le> d" "d \<le> 360"
  shows "0 \<le> v"
proof -
  from assms(1) obtain q where "math_sqrt q = Inr (sqrt q)"
    and v: "v = 2 * sqrt q * sin (math_radians d / 2)" and "\<not> q < 0"
    by (auto simp: inclination_change_delta_v_def orbital_velocity_def py_bind_eq_Inr Let_def
        math_sqrt_def split: if_splits)
  then have "0 \<le> sqrt q"
    by simp
  moreover have "0 \<le> sin (math_radians d / 2)"
  proof (rule sin_ge_zero)
    show "0 \<le> math_radians d / 2"
      using assms(2) by (simp add: math_radians_def)
    have "d * pi \<le> 360 * pi"
      using assms(3) by (intro mult_right_mono) simp_all
    then show "math_radians d / 2 \<le> pi"
      by (simp add: math_radians_def)
  qed
  ultimately show ?thesis
    unfolding v by simp
qed

lemma math_degrees_arccos:
  assumes "\<bar>c\<bar> \<le> 1"
  shows "0 \<le> math_degrees (arccos c)" "math_degrees (arccos c) \<le> 180"
proof -
  from assms have c: "- 1 \<le> c" "c \<le> 1"
    by simp_all
  then have "0 \<le> arccos c" "arccos c \<le> pi"
    by (simp_all add: arccos_lbound arccos_ubound)
  then show "0 \<le> math_degrees (arccos c)"
    by (simp add: math_degrees_def)
  have "arccos c * (180 / pi) \<le> pi * (180 / pi)"
    using \<open>arccos c \<le> pi\<close> by (intro mult_right_mono) simp_all
  then show "math_degrees (arccos c) \<le> 180"
    by (simp add: math_degrees_def)
qed

lemma ltan_invariant_bounds:
  assumes "ltan_invariant alt rate days seen (Some s, m)"
  shows "0 \<le> new_inclination_deg s" "new_inclination_deg s \<le> 180" "0 \<le> total_delta_v_kms s"
proof -
  from assms obtain c where c: "candidate_cos_i rate (new_altitude_km s) = Inr c" "\<bar>c\<bar> \<le> 1"
    and i: "new_inclination_deg s = math_degrees (arccos c)"
    and cost: "spec_candidate_cost alt rate (new_altitude_km s) = Inr (total_delta_v_kms s)"
    by (auto simp: ltan_invariant_def)
  from math_degrees_arccos [OF c(2)] i
  show deg: "0 \<le> new_inclination_deg s" "new_inclination_deg s \<le> 180"
    by simp_all
  from cost c(1) obtain dv_alt dv_inc where
    "hohmann_delta_v (R_EARTH + alt) (R_EARTH + of_int (new_altitude_km s)) = Inr dv_alt"
    and inc: "inclination_change_delta_v (of_int (new_altitude_km s))
        \<bar>math_degrees (arccos c) - 98.6\<bar> = Inr dv_inc"
    and t: "dv_alt + dv_inc = total_delta_v_kms s"
    unfolding spec_candidate_cost_def c(1) py_bind_Inr py_bind_eq_Inr sum.inject by blast
  then have "0 \<le> dv_alt"
    by (simp add: hohmann_nonneg)
  moreover have "0 \<le> dv_inc"
    using inc
  proof (rule inclination_nonneg)
    show "0 \<le> \<bar>math_degrees (arccos c) - 98.6\<bar>"
      by simp
    show "\<bar>math_degrees (arccos c) - 98.6\<bar> \<le> 360"
      using deg i by simp
  qed
  ultimately show "0 \<le> total_delta_v_kms s"
    by (simp add: t [symmetric])
qed

text \<open>
  Claim C10. Every solution that \<^verbatim>\<open>ltan_drift_adjustment\<close> returns has an inclination
  between 0 and 180 degrees and a nonnegative total delta-v.
\<close>

theorem ltan_solution_bounds:
  "ltan_drift_adjustment li lt alt days = Inr (Some s) \<Longrightarrow>
     0 \<le> new_inclination_deg s \<and> new_inclination_deg s \<le> 180 \<and> 0 \<le> total_delta_v_kms s"
proof -
  assume "ltan_drift_adjustment li lt alt days = Inr (Some s)"
  then obtain m where
    "ltan_invariant alt (delta_ltan_deg li lt / days) days (py_range 400 900 5) (Some s, m)"
    using ltan_drift_adjustment_Inr(2) by blast
  then show ?thesis
    by (simp add: ltan_invariant_bounds)
qed

text \<open>
  The solution for zero drift at 500 km over 90 days.
\<close>

theorem ltan_solution_bounds_witness:
  "\<exists>s. ltan_drift_adjustment 9 9 500 90 = Inr (Some s)
     \<and> 0 \<le> new_inclination_deg s \<and> new_inclination_deg s \<le> 180 \<and> 0 \<le> total_delta_v_kms s"
proof -
  have "(90::real) \<noteq> 0" and "0 < R_EARTH + 500"
    by (simp_all add: R_EARTH_def)
  then obtain s where s: "ltan_drift_adjustment 9 9 500 90 = Inr (Some s)"
    using ltan_zero_drift_solution by blast
  from s ltan_solution_bounds [OF s] show ?thesis
    by blast
qed

section \<open>The LTAN difference\<close>

lemma delta_ltan_deg_range:
  "- 180 \<le> delta_ltan_deg i t" "delta_ltan_deg i t \<le> 180"
proof -
  define x where "x = (t - i) * 15 + 180"
  have "of_int \<lfloor>x / 360\<rfloor> \<le> x / 360" "x / 360 < of_int \<lfloor>x / 360\<rfloor> + 1"
    by linarith+
  then have "0 \<le> py_mod x 360" "py_mod x 360 \<le> 360"
    by (simp_all add: py_mod_def field_simps)
  then show "- 180 \<le> delta_ltan_deg i t" "delta_ltan_deg i t \<le> 180"
    by (simp_all add: delta_ltan_deg_def Let_def x_def)
qed

lemma delta_ltan_deg_congruent:
  "\<exists>k::int. delta_ltan_deg i t = (t - i) * 15 - 360 * of_int k"
  by (auto simp: delta_ltan_deg_def Let_def py_mod_def)

text \<open>
  Claim C3 puts the normalised LTAN difference in \<open>(-180, 180]\<close>. From LTAN 0 h to 12 h the
  difference is 180 degrees, and the source normalises it to \<open>-180\<close>.
\<close>

theorem delta_ltan_not_half_open_counterexample:
  "\<not> (- 180 < delta_ltan_deg 0 12 \<and> delta_ltan_deg 0 12 \<le> 180)"
  by (simp add: delta_ltan_deg_def py_mod_def)

text \<open>
  Claim C3, amended. The LTAN difference \<open>target - initial\<close> is multiplied by 15 and
  normalised modulo 360 into the closed interval \<open>[-180, 180]\<close>: the result differs from the
  difference in degrees by a multiple of 360 and is the short way around. The required
  drift rate is this normalised difference divided by the duration, when the duration is
  not zero, and it is the drift rate that a returned solution records.
\<close>

theorem ltan_delta_normalised:
  "- 180 \<le> delta_ltan_deg i t \<and> delta_ltan_deg i t \<le> 180
   \<and> (\<exists>k::int. delta_ltan_deg i t = (t - i) * 15 - 360 * of_int k)
   \<and> (d \<noteq> 0 \<longrightarrow> required_drift_rate i t d = Inr (delta_ltan_deg i t / d))
   \<and> (\<forall>alt s. ltan_drift_adjustment i t alt d = Inr (Some s) \<longrightarrow>
         required_drift_deg_per_day s = delta_ltan_deg i t / d)"
proof (intro conjI allI impI)
  show "- 180 \<le> delta_ltan_deg i t" and "delta_ltan_deg i t \<le> 180"
    by (rule delta_ltan_deg_range)+
  show "\<exists>k::int. delta_ltan_deg i t = (t - i) * 15 - 360 * of_int k"
    by (rule delta_ltan_deg_congruent)
  show "required_drift_rate i t d = Inr (delta_ltan_deg i t / d)" if "d \<noteq> 0"
    using that by (simp add: required_drift_rate_def py_truediv_def)
  show "required_drift_deg_per_day s = delta_ltan_deg i t / d"
    if "ltan_drift_adjustment i t alt d = Inr (Some s)" for alt s
  proof -
    from that obtain m where
      "ltan_invariant alt (delta_ltan_deg i t / d) d (py_range 400 900 5) (Some s, m)"
      using ltan_drift_adjustment_Inr(2) by blast
    then show ?thesis
      by (simp add: ltan_invariant_def)
  qed
qed

text \<open>
  From LTAN 9 h to 6 h in 90 days: 45 degrees backwards, half a degree a day.
\<close>

theorem ltan_delta_normalised_witness:
  "- 180 \<le> delta_ltan_deg 9 6 \<and> delta_ltan_deg 9 6 \<le> 180
   \<and> delta_ltan_deg 9 6 = - 45
   \<and> required_drift_rate 9 6 90 = Inr (delta_ltan_deg 9 6 / 90)"
proof -
  have "delta_ltan_deg 9 6 = - 45"
    by (simp add: delta_ltan_deg_def py_mod_def)
  with ltan_delta_normalised [of 9 6 90] show ?thesis
    by simp
qed

end
